theory Spec2Isabelle
  imports Complex_Main "HOL-Library.AList"
begin

section \<open>The questionnaire page of \<open>static/js/questionnaire.js\<close>\<close>

text \<open>
  The script drives a multi-step form: it keeps the index of the section on display,
  checks the required inputs of that section before it moves on, and posts the form to
  \<open>/predict\<close>. The page is a record of the DOM handles the script reads and writes;
  every handler takes the page and returns the page it leaves behind, together with the
  exception it threw, if any.
\<close>

subsection \<open>Plain JavaScript objects\<close>

text \<open>
  An object literal \<open>{}\<close> holds its own properties (here in insertion order) and
  inherits the members of \<open>Object.prototype\<close>. Reading \<open>obj[k]\<close> finds an own
  property first and an inherited member otherwise; every inherited member is a function
  or an object, so it is truthy. Writing \<open>obj[k] = v\<close> creates or overwrites an own
  property, except for \<open>__proto__\<close>, whose inherited setter ignores a value that is
  neither an object nor null.
\<close>

type_synonym 'v jsobject = "(string \<times> 'v) list"

definition objectPrototypeKeys :: "string list" where
  "objectPrototypeKeys =
     [''constructor'', ''__defineGetter__'', ''__defineSetter__'', ''hasOwnProperty'',
      ''__lookupGetter__'', ''__lookupSetter__'', ''isPrototypeOf'',
      ''propertyIsEnumerable'', ''toString'', ''valueOf'', ''__proto__'',
      ''toLocaleString'']"

datatype 'v property = Own 'v | Inherited | Undefined

definition getProperty :: "'v jsobject \<Rightarrow> string \<Rightarrow> 'v property" where
  "getProperty obj k =
     (case map_of obj k of
        Some v \<Rightarrow> Own v
      | None \<Rightarrow> if k \<in> set objectPrototypeKeys then Inherited else Undefined)"

definition setProperty :: "'v jsobject \<Rightarrow> string \<Rightarrow> 'v \<Rightarrow> 'v jsobject" where
  "setProperty obj k v = (if k = ''__proto__'' then obj else AList.update k v obj)"

fun truthyFlag :: "bool property \<Rightarrow> bool" where
  "truthyFlag (Own b) = b"
| "truthyFlag Inherited = True"
| "truthyFlag Undefined = False"

subsection \<open>Strings and numbers\<close>

text \<open>
  \<open>String.prototype.trim\<close> strips white space from both ends. Strings are 8-bit
  here, so the white space is the ASCII part of JavaScript's: TAB, LF, VT, FF, CR and
  the space.
\<close>

definition isWhiteSpace :: "char \<Rightarrow> bool" where
  "isWhiteSpace c = (c \<in> set [CHR 0x09, CHR 0x0A, CHR 0x0B, CHR 0x0C, CHR 0x0D, CHR 0x20])"

definition trim :: "string \<Rightarrow> string" where
  "trim s = rev (dropWhile isWhiteSpace (rev (dropWhile isWhiteSpace s)))"

text \<open>The decimal text of an integral number, as assigning it to \<open>textContent\<close> gives.\<close>

fun digitsOf :: "nat \<Rightarrow> string" where
  "digitsOf n =
     (if n < 10 then [''0123456789'' ! n]
      else digitsOf (n div 10) @ [''0123456789'' ! (n mod 10)])"

declare digitsOf.simps [simp del]

definition numberToString :: "int \<Rightarrow> string" where
  "numberToString i = (if i < 0 then CHR ''-'' # digitsOf (nat (- i)) else digitsOf (nat i))"

text \<open>Reading decimal text back, to check \<open>digitsOf\<close> against.\<close>

definition digitValue :: "char \<Rightarrow> nat" where
  "digitValue c = of_char c - 48"

definition numberOfDigits :: "string \<Rightarrow> nat" where
  "numberOfDigits ds = foldl (\<lambda>a c. 10 * a + digitValue c) 0 ds"

subsection \<open>The DOM the script works on\<close>

datatype inputType = Radio | Checkbox | TextInput | Select

record control =
  inputType :: inputType
  inputName :: string
  inputValue :: string
  inputChecked :: bool
  inputRequired :: bool

record formSection =
  classList :: "string list"
  inputs :: "control list"

text \<open>\<open>classList.remove\<close> and \<open>classList.add\<close> of a token list without duplicates.\<close>

definition classListRemove :: "string \<Rightarrow> string list \<Rightarrow> string list" where
  "classListRemove c cl = filter (\<lambda>x. x \<noteq> c) cl"

definition classListAdd :: "string \<Rightarrow> string list \<Rightarrow> string list" where
  "classListAdd c cl = (if c \<in> set cl then cl else cl @ [c])"

text \<open>
  Values that \<open>response.json()\<close> resolves to. Numbers are rationals: the rounding of
  doubles is not part of the model.
\<close>

datatype json =
    JNull
  | JBool bool
  | JNum rat
  | JStr string
  | JArr "json list"
  | JObj "(string \<times> json) list"

text \<open>The platform's serializer is left uninterpreted: the constructor marks the call.\<close>

datatype serialized = JSONstringify json

datatype thrown =
    TypeError
  | FetchFailure
  | ParseFailure
  | ErrorMessage json

record request =
  url :: string
  httpMethod :: string
  contentType :: string
  body :: serialized

datatype effect =
    Alert string
  | ConsoleError thrown
  | ScrollToTop
  | PreventDefault
  | Fetch request
  | SetItem string serialized
  | LocationHref string

record page =
  sections :: "formSection list"
  formControls :: "control list"
  currentSection :: int
  progressBarWidth :: rat
  currentStepText :: string
  totalStepsText :: string
  prevBtnDisplay :: string
  nextBtnDisplay :: string
  submitBtnDisplay :: string
  submitBtnText :: string
  submitBtnDisabled :: bool
  effects :: "effect list"

definition totalSections :: "page \<Rightarrow> int" where
  "totalSections s = int (length (sections s))"

text \<open>\<open>sections[index]\<close>: the element, or \<open>undefined\<close> outside the node list.\<close>

definition sectionAt :: "page \<Rightarrow> int \<Rightarrow> formSection option" where
  "sectionAt s index =
     (if 0 \<le> index \<and> index < totalSections s then Some (sections s ! nat index) else None)"

definition perform :: "effect \<Rightarrow> page \<Rightarrow> page" where
  "perform e s = s\<lparr>effects := effects s @ [e]\<rparr>"

subsection \<open>\<open>showSection\<close>\<close>

definition showSection :: "int \<Rightarrow> page \<Rightarrow> thrown option \<times> page" where
  "showSection index s =
     (let s1 = s\<lparr>sections :=
                   map (\<lambda>sec. sec\<lparr>classList := classListRemove ''active'' (classList sec)\<rparr>)
                     (sections s)\<rparr>
      in case sectionAt s1 index of
           None \<Rightarrow> (Some TypeError, s1)
         | Some sec \<Rightarrow>
             let s2 = s1\<lparr>sections :=
                          (sections s1)[nat index :=
                             sec\<lparr>classList := classListAdd ''active'' (classList sec)\<rparr>]\<rparr>;
                 progress = (of_int (index + 1) / of_int (totalSections s2)) * 100;
                 s3 = s2\<lparr>progressBarWidth := progress\<rparr>;
                 s4 = s3\<lparr>currentStepText := numberToString (index + 1)\<rparr>;
                 s5 = (if index = 0 then s4\<lparr>prevBtnDisplay := ''none''\<rparr>
                       else s4\<lparr>prevBtnDisplay := ''inline-block''\<rparr>);
                 s6 = (if index = totalSections s5 - 1
                       then s5\<lparr>nextBtnDisplay := ''none'', submitBtnDisplay := ''inline-block''\<rparr>
                       else s5\<lparr>nextBtnDisplay := ''inline-block'', submitBtnDisplay := ''none''\<rparr>)
             in (None, perform ScrollToTop s6))"

subsection \<open>\<open>validateSection\<close>\<close>

text \<open>
  The callback handed to \<open>requiredInputs.forEach\<close>: it updates \<open>radioGroups\<close> and
  returns \<open>false\<close> or nothing (\<open>None\<close>). \<open>forEach\<close> discards what its callback
  returns and goes on with the next element.
\<close>

definition requiredInputCallback ::
    "control \<Rightarrow> bool jsobject \<Rightarrow> bool jsobject \<times> bool option" where
  "requiredInputCallback input radioGroups =
     (if inputType input = Radio then
        let name = inputName input;
            g1 = (if \<not> truthyFlag (getProperty radioGroups name)
                  then setProperty radioGroups name False else radioGroups);
            g2 = (if inputChecked input then setProperty g1 name True else g1)
        in (g2, None)
      else if inputType input = Checkbox then
        (if \<not> inputChecked input then (radioGroups, Some False) else (radioGroups, None))
      else
        (if trim (inputValue input) = [] then (radioGroups, Some False)
         else (radioGroups, None)))"

definition forEach :: "('a \<Rightarrow> 's \<Rightarrow> 's \<times> 'r) \<Rightarrow> 'a list \<Rightarrow> 's \<Rightarrow> 's" where
  "forEach callback xs st = fold (\<lambda>x acc. fst (callback x acc)) xs st"

text \<open>What one call of the callback leaves in \<open>radioGroups\<close>.\<close>

definition noted :: "control \<Rightarrow> bool jsobject \<Rightarrow> bool jsobject" where
  "noted x g = fst (requiredInputCallback x g)"

text \<open>
  \<open>for (let group in radioGroups)\<close> visits the own properties and returns at the
  first falsy one; which one is first does not change the result.
\<close>

fun allGroupsAnswered :: "bool jsobject \<Rightarrow> bool" where
  "allGroupsAnswered [] = True"
| "allGroupsAnswered ((groupName, answered) # rest) =
     (if \<not> answered then False else allGroupsAnswered rest)"

fun allCheckboxesChecked :: "control list \<Rightarrow> bool" where
  "allCheckboxesChecked [] = True"
| "allCheckboxesChecked (checkbox # rest) =
     (if \<not> inputChecked checkbox then False else allCheckboxesChecked rest)"

definition validateElement :: "formSection \<Rightarrow> bool" where
  "validateElement sec =
     (let requiredInputs = filter inputRequired (inputs sec);
          radioGroups = forEach requiredInputCallback requiredInputs []
      in if \<not> allGroupsAnswered radioGroups then False
         else
           let checkboxes =
                 filter (\<lambda>c. inputType c = Checkbox \<and> inputRequired c) (inputs sec)
           in if \<not> allCheckboxesChecked checkboxes then False else True)"

definition validateSection :: "page \<Rightarrow> int \<Rightarrow> thrown + bool" where
  "validateSection s index =
     (case sectionAt s index of
        None \<Rightarrow> Inl TypeError
      | Some sec \<Rightarrow> Inr (validateElement sec))"

subsection \<open>The navigation handlers\<close>

definition nextBtnClick :: "page \<Rightarrow> thrown option \<times> page" where
  "nextBtnClick s =
     (case validateSection s (currentSection s) of
        Inl e \<Rightarrow> (Some e, s)
      | Inr valid \<Rightarrow>
          if valid then
            let s1 = s\<lparr>currentSection := currentSection s + 1\<rparr>
            in if currentSection s1 < totalSections s1
               then showSection (currentSection s1) s1
               else (None, s1)
          else
            (None, perform (Alert ''Please answer all required questions before proceeding.'') s))"

definition prevBtnClick :: "page \<Rightarrow> thrown option \<times> page" where
  "prevBtnClick s =
     (let s1 = s\<lparr>currentSection := currentSection s - 1\<rparr>
      in if currentSection s1 \<ge> 0
         then showSection (currentSection s1) s1
         else (None, s1))"

text \<open>
  The body of the \<open>DOMContentLoaded\<close> listener up to the registration of the
  handlers: the index starts at 0, the total is written out, the first section is shown.
\<close>

definition domContentLoaded :: "page \<Rightarrow> thrown option \<times> page" where
  "domContentLoaded s =
     (let s1 = s\<lparr>currentSection := 0\<rparr>;
          s2 = s1\<lparr>totalStepsText := numberToString (totalSections s1)\<rparr>
      in showSection (currentSection s2) s2)"

subsection \<open>Submission\<close>

text \<open>
  \<open>new FormData(form)\<close> is the platform's entry list of the form, in tree order: a
  control without a name gives no entry, a radio button or checkbox gives one only when
  it is checked, every other control gives its name and value.
\<close>

definition submitted :: "control \<Rightarrow> bool" where
  "submitted c =
     (inputName c \<noteq> [] \<and>
      (if inputType c = Radio \<or> inputType c = Checkbox then inputChecked c else True))"

definition formDataEntries :: "control list \<Rightarrow> (string \<times> string) list" where
  "formDataEntries cs = map (\<lambda>c. (inputName c, inputValue c)) (filter submitted cs)"

text \<open>The loop \<open>for (let [key, value] of formData.entries()) data[key] = value\<close>.\<close>

definition serializeForm :: "control list \<Rightarrow> string jsobject" where
  "serializeForm cs =
     foldl (\<lambda>data (key, val). setProperty data key val) [] (formDataEntries cs)"

definition dataAsJson :: "string jsobject \<Rightarrow> json" where
  "dataAsJson data = JObj (map (\<lambda>(k, v). (k, JStr v)) data)"

definition formSubmit :: "page \<Rightarrow> thrown option \<times> page" where
  "formSubmit s =
     (let s0 = perform PreventDefault s
      in case validateSection s0 (currentSection s0) of
           Inl e \<Rightarrow> (Some e, s0)
         | Inr valid \<Rightarrow>
             if valid then
               let s1 = s0\<lparr>submitBtnText := ''Processing...''\<rparr>;
                   s2 = s1\<lparr>submitBtnDisabled := True\<rparr>;
                   data = serializeForm (formControls s2)
               in (None,
                   perform (Fetch \<lparr>url = ''/predict'', httpMethod = ''POST'',
                                   contentType = ''application/json'',
                                   body = JSONstringify (dataAsJson data)\<rparr>) s2)
             else
               (None,
                perform (Alert ''Please complete all required fields and agree to the terms.'')
                  s0))"

text \<open>
  Reading a member of the response value. \<open>null\<close> has no members: the read throws.
  An object gives its own property or \<open>undefined\<close> (\<open>None\<close>); the two names
  the script reads, \<open>success\<close> and \<open>error\<close>, are members of no prototype, so
  every other value gives \<open>undefined\<close>.
\<close>

fun getMember :: "json \<Rightarrow> string \<Rightarrow> thrown + json option" where
  "getMember JNull k = Inl TypeError"
| "getMember (JObj kvs) k = Inr (map_of kvs k)"
| "getMember v k = Inr None"

fun truthy :: "json option \<Rightarrow> bool" where
  "truthy None = False"
| "truthy (Some JNull) = False"
| "truthy (Some (JBool b)) = b"
| "truthy (Some (JNum n)) = (n \<noteq> 0)"
| "truthy (Some (JStr str)) = (str \<noteq> [])"
| "truthy (Some (JArr vs)) = True"
| "truthy (Some (JObj kvs)) = True"

text \<open>
  The second \<open>.then\<close> callback. \<open>new Error(m)\<close> is kept with the value \<open>m\<close>;
  \<open>sessionStorage.setItem\<close> is taken to succeed.
\<close>

definition onResult :: "json \<Rightarrow> page \<Rightarrow> thrown option \<times> page" where
  "onResult result s =
     (case getMember result ''success'' of
        Inl e \<Rightarrow> (Some e, s)
      | Inr success \<Rightarrow>
          if truthy success then
            let s1 = perform (SetItem ''riskResults'' (JSONstringify result)) s
            in (None, perform (LocationHref ''/results'') s1)
          else
            (case getMember result ''error'' of
               Inl e \<Rightarrow> (Some e, s)
             | Inr err \<Rightarrow>
                 (Some (ErrorMessage (if truthy err then the err else JStr ''Prediction failed'')),
                  s)))"

text \<open>The \<open>.catch\<close> callback.\<close>

definition onError :: "thrown \<Rightarrow> page \<Rightarrow> page" where
  "onError error s =
     (let s1 = perform (ConsoleError error) s;
          s2 = perform
                 (Alert ''An error occurred while processing your assessment. Please try again.'')
                 s1;
          s3 = s2\<lparr>submitBtnText := ''Submit Assessment''\<rparr>
      in s3\<lparr>submitBtnDisabled := False\<rparr>)"

text \<open>
  How the promise chain \<open>fetch(...).then(response => response.json()).then(...).catch(...)\<close>
  settles: the request fails, the body is not JSON, or the body parses to a value.
\<close>

datatype fetchOutcome = FetchRejected | BodyRejected | Parsed json

definition fetchSettled :: "fetchOutcome \<Rightarrow> page \<Rightarrow> page" where
  "fetchSettled outcome s =
     (case outcome of
        FetchRejected \<Rightarrow> onError FetchFailure s
      | BodyRejected \<Rightarrow> onError ParseFailure s
      | Parsed result \<Rightarrow>
          (case onResult result s of
             (None, s') \<Rightarrow> s'
           | (Some e, s') \<Rightarrow> onError e s'))"

subsection \<open>Pages reached through the controls on display\<close>

text \<open>
  A page shows its current section when the index is inside the node list, that section
  alone is marked active, and the previous and next buttons are hidden exactly at the
  first and at the last index.
\<close>

definition shown :: "page \<Rightarrow> bool" where
  "shown s =
     (0 \<le> currentSection s \<and> currentSection s < totalSections s \<and>
      (prevBtnDisplay s = ''none'') = (currentSection s = 0) \<and>
      (nextBtnDisplay s = ''none'') = (currentSection s = totalSections s - 1) \<and>
      map (\<lambda>sec. ''active'' \<in> set (classList sec)) (sections s) =
        map (\<lambda>j. j = nat (currentSection s)) [0..<length (sections s)])"

text \<open>
  The pages a user reaches from the markup \<open>p\<close>: the script loads without an
  exception; the user answers questions (the inputs change, the classes do not), clicks a
  navigation button that is on display, submits the form; a request settles.
\<close>

inductive reachable :: "page \<Rightarrow> page \<Rightarrow> bool" for p :: page where
  loaded: "domContentLoaded p = (None, s) \<Longrightarrow> reachable p s"
| answered: "reachable p s \<Longrightarrow> map classList secs = map classList (sections s) \<Longrightarrow>
     reachable p (s\<lparr>sections := secs, formControls := cs\<rparr>)"
| advanced: "reachable p s \<Longrightarrow> nextBtnDisplay s \<noteq> ''none'' \<Longrightarrow>
     reachable p (snd (nextBtnClick s))"
| retreated: "reachable p s \<Longrightarrow> prevBtnDisplay s \<noteq> ''none'' \<Longrightarrow>
     reachable p (snd (prevBtnClick s))"
| sent: "reachable p s \<Longrightarrow> reachable p (snd (formSubmit s))"
| settled: "reachable p s \<Longrightarrow> reachable p (fetchSettled outcome s)"

text \<open>The messages that \<open>alert\<close> has shown, oldest first.\<close>

fun alertsOf :: "effect list \<Rightarrow> string list" where
  "alertsOf [] = []"
| "alertsOf (Alert m # es) = m # alertsOf es"
| "alertsOf (e # es) = alertsOf es"

subsection \<open>Pages and responses to run the script on\<close>

definition ageInput :: control where
  "ageInput = \<lparr>inputType = TextInput, inputName = ''age'', inputValue = ''34'',
                inputChecked = False, inputRequired = True\<rparr>"

definition blankAge :: control where
  "blankAge = \<lparr>inputType = TextInput, inputName = ''age'', inputValue = ''  '',
                inputChecked = False, inputRequired = True\<rparr>"

definition riskLow :: control where
  "riskLow = \<lparr>inputType = Radio, inputName = ''riskGroup'', inputValue = ''low'',
               inputChecked = False, inputRequired = True\<rparr>"

definition riskHigh :: control where
  "riskHigh = \<lparr>inputType = Radio, inputName = ''riskGroup'', inputValue = ''high'',
                inputChecked = True, inputRequired = True\<rparr>"

definition optionalBox :: control where
  "optionalBox = \<lparr>inputType = Checkbox, inputName = ''newsletter'', inputValue = ''on'',
                   inputChecked = False, inputRequired = False\<rparr>"

definition termsBox :: control where
  "termsBox = \<lparr>inputType = Checkbox, inputName = ''terms'', inputValue = ''on'',
                inputChecked = False, inputRequired = True\<rparr>"

text \<open>
  Three steps: answered questions, an optional box, the terms still to be agreed to. The
  markup marks two sections active, which \<open>showSection\<close> has to repair.
\<close>

definition examplePage :: page where
  "examplePage =
     \<lparr>sections =
        [\<lparr>classList = [''form-section''], inputs = [ageInput, riskLow, riskHigh]\<rparr>,
         \<lparr>classList = [''form-section'', ''active''], inputs = [optionalBox]\<rparr>,
         \<lparr>classList = [''form-section'', ''active''], inputs = [termsBox]\<rparr>],
      formControls = [ageInput, riskLow, riskHigh, optionalBox, termsBox],
      currentSection = 0, progressBarWidth = 0, currentStepText = [], totalStepsText = [],
      prevBtnDisplay = [], nextBtnDisplay = [], submitBtnDisplay = [],
      submitBtnText = ''Submit Assessment'', submitBtnDisabled = False, effects = []\<rparr>"

text \<open>One step whose only question, a required text field, holds two spaces.\<close>

definition unansweredPage :: page where
  "unansweredPage =
     examplePage\<lparr>sections := [\<lparr>classList = [''form-section''], inputs = [blankAge]\<rparr>],
                 formControls := [blankAge]\<rparr>"

text \<open>Two steps without a required question.\<close>

definition twoStepPage :: page where
  "twoStepPage =
     examplePage\<lparr>sections :=
                   [\<lparr>classList = [''form-section''], inputs = [optionalBox]\<rparr>,
                    \<lparr>classList = [''form-section''], inputs = []\<rparr>],
                 formControls := [optionalBox]\<rparr>"

definition rejectedResponse :: json where
  "rejectedResponse = JObj [(''success'', JBool False), (''error'', JStr ''bad input'')]"

definition acceptedResponse :: json where
  "acceptedResponse =
     JObj [(''success'', JBool True), (''result'', JObj [(''score'', JNum (4 / 5))])]"

lemmas example_defs =
  examplePage_def ageInput_def riskLow_def riskHigh_def optionalBox_def termsBox_def

lemmas eval_defs =
  validateSection_def sectionAt_def totalSections_def validateElement_def forEach_def
  requiredInputCallback_def getProperty_def setProperty_def objectPrototypeKeys_def perform_def

section \<open>Rendering a section\<close>

lemma sectionAt_in_range:
  "0 \<le> i \<Longrightarrow> i < totalSections s \<Longrightarrow> sectionAt s i = Some (sections s ! nat i)"
  by (simp add: sectionAt_def)

lemma active_after_remove: "''active'' \<notin> set (classListRemove ''active'' cl)"
  by (simp add: classListRemove_def)

lemma active_after_add: "''active'' \<in> set (classListAdd ''active'' cl)"
  by (simp add: classListAdd_def)

text \<open>Inside the node list \<open>showSection\<close> runs to its end; this is the page it leaves.\<close>

lemma showSection_in_range:
  assumes "0 \<le> i" and "i < totalSections s"
  shows "showSection i s =
     (None,
      s\<lparr>sections :=
           (map (\<lambda>sec. sec\<lparr>classList := classListRemove ''active'' (classList sec)\<rparr>)
              (sections s))
             [nat i := (sections s ! nat i)
                \<lparr>classList := classListAdd ''active''
                   (classListRemove ''active'' (classList (sections s ! nat i)))\<rparr>],
         progressBarWidth := (of_int (i + 1) / of_int (totalSections s)) * 100,
         currentStepText := numberToString (i + 1),
         prevBtnDisplay := (if i = 0 then ''none'' else ''inline-block''),
         nextBtnDisplay := (if i = totalSections s - 1 then ''none'' else ''inline-block''),
         submitBtnDisplay := (if i = totalSections s - 1 then ''inline-block'' else ''none''),
         effects := effects s @ [ScrollToTop]\<rparr>)"
  using assms
  by (simp add: showSection_def sectionAt_def totalSections_def perform_def Let_def)

lemma showSection_currentSection:
  "currentSection (snd (showSection i s)) = currentSection s"
  by (simp add: showSection_def Let_def perform_def split: option.split)

lemma active_marks:
  assumes "n < length secs"
  shows "map (\<lambda>sec. ''active'' \<in> set (classList sec))
           ((map (\<lambda>sec. sec\<lparr>classList := classListRemove ''active'' (classList sec)\<rparr>) secs)
              [n := (secs ! n)\<lparr>classList := classListAdd ''active''
                       (classListRemove ''active'' (classList (secs ! n)))\<rparr>]) =
         map (\<lambda>j. j = n) [0..<length secs]"
  using assms
  by (intro nth_equalityI)
     (simp_all add: nth_list_update active_after_remove active_after_add)

lemma showSection_shown:
  assumes "0 \<le> i" and "i < totalSections s" and "currentSection s = i"
  shows "shown (snd (showSection i s))"
proof -
  have n: "nat i < length (sections s)"
    using assms(1,2) by (simp add: totalSections_def)
  have i: "i = 0 \<longleftrightarrow> nat i = 0"
    "i = int (length (sections s)) - 1 \<longleftrightarrow> nat i = length (sections s) - 1"
    using assms(1,2) by (auto simp: totalSections_def)
  show ?thesis
    using assms n by (simp add: showSection_in_range shown_def totalSections_def active_marks)
qed

text \<open>The step counter is decimal text: reading it back gives the number.\<close>

lemma digitValue_nth: "d < 10 \<Longrightarrow> digitValue (''0123456789'' ! d) = d"
proof -
  assume "d < 10"
  then have "d \<in> {0, 1, 2, 3, 4, 5, 6, 7, 8, 9}" by auto
  then show ?thesis by (auto simp: digitValue_def)
qed

lemma numberOfDigits_digitsOf: "numberOfDigits (digitsOf n) = n"
proof (induction n rule: digitsOf.induct)
  case (1 n)
  show ?case
  proof (cases "n < 10")
    case True
    then show ?thesis
      by (subst digitsOf.simps) (simp add: numberOfDigits_def digitValue_nth)
  next
    case False
    with 1 have "numberOfDigits (digitsOf (n div 10)) = n div 10" by simp
    with False show ?thesis
      by (subst digitsOf.simps) (simp add: numberOfDigits_def digitValue_nth)
  qed
qed

text \<open>
  C7. For an index \<open>i\<close> inside the node list, \<open>showSection i\<close> returns normally
  and leaves the class \<open>active\<close> on section \<open>i\<close> and on no other section,
  whatever classes the sections carried before.
\<close>

theorem showSection_marks_exactly_one:
  assumes "0 \<le> i" and "i < totalSections s"
  shows "fst (showSection i s) = None \<and>
         length (sections (snd (showSection i s))) = length (sections s) \<and>
         (\<forall>j < length (sections s).
            (''active'' \<in> set (classList (sections (snd (showSection i s)) ! j))) = (j = nat i))"
  using assms
  by (simp add: showSection_in_range nth_list_update active_after_remove active_after_add
      totalSections_def)

text \<open>
  C7 on the example page: two sections are marked active in the markup; after
  \<open>showSection 1\<close> the second section alone is.
\<close>

theorem showSection_marks_exactly_one_witness:
  "(0::int) \<le> 1 \<and> 1 < totalSections examplePage \<and>
   map (\<lambda>sec. ''active'' \<in> set (classList sec)) (sections (snd (showSection 1 examplePage)))
     = [False, True, False]"
proof -
  have h: "(0::int) \<le> 1" "1 < totalSections examplePage"
    by (simp_all add: totalSections_def examplePage_def)
  have n: "length (sections examplePage) = 3" by (simp add: examplePage_def)
  from showSection_marks_exactly_one [OF h] n
  have "length (sections (snd (showSection 1 examplePage))) = 3"
    and "\<forall>j<3. (''active'' \<in> set (classList (sections (snd (showSection 1 examplePage)) ! j)))
           = (j = nat 1)"
    by simp_all
  then show ?thesis using h
    by (simp add: list_eq_iff_nth_eq less_Suc_eq numeral_3_eq_3 eval_nat_numeral)
qed



section \<open>Writing to a plain object\<close>

lemma map_of_setProperty:
  "map_of (setProperty d k v) = (if k = ''__proto__'' then map_of d else (map_of d)(k \<mapsto> v))"
  by (simp add: setProperty_def update_conv')

lemma distinct_setProperty:
  "distinct (map fst d) \<Longrightarrow> distinct (map fst (setProperty d k v))"
  by (simp add: setProperty_def distinct_update)

lemma proto_in_keys: "''__proto__'' \<in> set objectPrototypeKeys"
  by (simp add: objectPrototypeKeys_def)

section \<open>Validation and navigation\<close>


lemma validateElement_no_required:
  assumes "filter inputRequired (inputs sec) = []"
  shows "validateElement sec"
proof -
  have "filter (\<lambda>c. inputType c = Checkbox \<and> inputRequired c) (inputs sec) = []"
    using assms by (auto simp: filter_empty_conv)
  with assms show ?thesis by (simp add: validateElement_def forEach_def)
qed

lemma allGroupsAnswered_iff: "allGroupsAnswered g \<longleftrightarrow> (\<forall>(k, b) \<in> set g. b)"
  by (induction g rule: allGroupsAnswered.induct) auto

lemma allGroupsAnswered_map_of:
  "distinct (map fst g) \<Longrightarrow> allGroupsAnswered g \<longleftrightarrow> (\<forall>k. map_of g k \<noteq> Some False)"
proof -
  assume "distinct (map fst g)"
  then have "(\<forall>k. map_of g k \<noteq> Some False) \<longleftrightarrow> (\<forall>k. (k, False) \<notin> set g)"
    by simp
  also have "\<dots> \<longleftrightarrow> (\<forall>(k, b) \<in> set g. b)"
  proof
    assume a: "\<forall>k. (k, False) \<notin> set g"
    show "\<forall>(k, b) \<in> set g. b"
    proof (clarify)
      fix k b assume "(k, b) \<in> set g"
      with a show b by (cases b) auto
    qed
  next
    assume "\<forall>(k, b) \<in> set g. b"
    then show "\<forall>k. (k, False) \<notin> set g" by auto
  qed
  finally show ?thesis by (simp add: allGroupsAnswered_iff)
qed

lemma allCheckboxesChecked_iff:
  "allCheckboxesChecked cs \<longleftrightarrow> (\<forall>c \<in> set cs. inputChecked c)"
  by (induction cs) auto

lemma noted_other: "inputType x \<noteq> Radio \<Longrightarrow> noted x g = g"
  by (simp add: noted_def requiredInputCallback_def)

text \<open>A radio button touches the entry of its own group only.\<close>

lemma noted_radio:
  assumes "inputType x = Radio"
  shows "map_of (noted x g) k =
     (if k \<noteq> inputName x then map_of g k
      else if inputChecked x then (if k = ''__proto__'' then map_of g k else Some True)
      else if k \<in> set objectPrototypeKeys then map_of g k
      else (case map_of g k of Some True \<Rightarrow> Some True | _ \<Rightarrow> Some False))"
  using assms proto_in_keys
  by (auto simp: noted_def requiredInputCallback_def Let_def getProperty_def map_of_setProperty
      split: option.splits bool.splits)

lemma distinct_noted: "distinct (map fst g) \<Longrightarrow> distinct (map fst (noted x g))"
  by (simp add: noted_def requiredInputCallback_def Let_def distinct_setProperty)

lemma forEach_noted: "forEach requiredInputCallback xs g = fold noted xs g"
  by (simp add: forEach_def noted_def [abs_def])

lemma distinct_fold_noted:
  "distinct (map fst g) \<Longrightarrow> distinct (map fst (fold noted xs g))"
  by (induction xs arbitrary: g) (simp_all add: distinct_noted)

text \<open>
  After the \<open>forEach\<close> a group is recorded as unanswered exactly when none of the
  radio buttons passed was checked and either it was so recorded before, or it was not
  recorded, its name is no member of \<open>Object.prototype\<close>, and a radio button of
  the group was passed.
\<close>

lemma fold_noted_unanswered:
  assumes "map_of g ''__proto__'' \<noteq> Some False"
  shows "map_of (fold noted xs g) k = Some False \<longleftrightarrow>
     (\<not> (\<exists>x \<in> set xs. inputType x = Radio \<and> inputName x = k \<and> inputChecked x)) \<and>
     (map_of g k = Some False \<or>
      (map_of g k = None \<and> k \<notin> set objectPrototypeKeys \<and>
       (\<exists>x \<in> set xs. inputType x = Radio \<and> inputName x = k)))"
  using assms
proof (induction xs arbitrary: g)
  case Nil
  show ?case by simp
next
  case (Cons x xs)
  show ?case
  proof (cases "inputType x = Radio")
    case False
    with Cons show ?thesis by (auto simp: noted_other)
  next
    case True
    have p: "map_of (noted x g) ''__proto__'' \<noteq> Some False"
      using Cons.prems proto_in_keys
      by (cases "inputName x = ''__proto__''") (auto simp: noted_radio [OF True])
    show ?thesis
      using Cons.prems proto_in_keys True
      apply (simp add: Cons.IH [OF p] noted_radio [OF True])
      apply (auto split: option.splits bool.splits)
      done
  qed
qed

text \<open>
  What \<open>validateSection\<close> decides on a section of the page: every required
  checkbox is checked, and every group of required radio buttons whose name is no member
  of \<open>Object.prototype\<close> has a checked required button. The values of text and
  select fields play no part.
\<close>

lemma validateElement_iff:
  "validateElement sec \<longleftrightarrow>
     (\<forall>c \<in> set (inputs sec). inputRequired c \<and> inputType c = Checkbox \<longrightarrow> inputChecked c) \<and>
     (\<forall>c \<in> set (inputs sec).
        inputRequired c \<and> inputType c = Radio \<and> inputName c \<notin> set objectPrototypeKeys \<longrightarrow>
        (\<exists>d \<in> set (inputs sec).
           inputRequired d \<and> inputType d = Radio \<and> inputName d = inputName c \<and>
           inputChecked d))"
proof -
  let ?req = "filter inputRequired (inputs sec)"
  have d: "distinct (map fst (fold noted ?req []))"
    by (simp add: distinct_fold_noted)
  have "validateElement sec \<longleftrightarrow>
      (\<forall>k. map_of (fold noted ?req []) k \<noteq> Some False) \<and>
      (\<forall>c \<in> set (inputs sec). inputType c = Checkbox \<and> inputRequired c \<longrightarrow> inputChecked c)"
    by (auto simp: validateElement_def Let_def forEach_noted allGroupsAnswered_map_of [OF d]
        allCheckboxesChecked_iff)
  also have "(\<forall>k. map_of (fold noted ?req []) k \<noteq> Some False) \<longleftrightarrow>
     (\<forall>c \<in> set (inputs sec).
        inputRequired c \<and> inputType c = Radio \<and> inputName c \<notin> set objectPrototypeKeys \<longrightarrow>
        (\<exists>d \<in> set (inputs sec).
           inputRequired d \<and> inputType d = Radio \<and> inputName d = inputName c \<and>
           inputChecked d))"
    by (subst fold_noted_unanswered) auto
  finally show ?thesis by auto
qed

lemma validateSection_in_range:
  "0 \<le> i \<Longrightarrow> i < totalSections s \<Longrightarrow> \<exists>b. validateSection s i = Inr b"
  by (simp add: validateSection_def sectionAt_def)

text \<open>
  C1. The claim reads: \<open>validateSection i\<close> is true exactly when every required text
  or select field of section \<open>i\<close> is non-empty after trimming, every required checkbox
  is checked and every required radio group has a checked member. The script tests the
  trimmed value inside the \<open>forEach\<close> callback, whose \<open>return false\<close> ends the
  callback only: on a section whose one required text field holds nothing but spaces,
  \<open>validateSection\<close> returns true.
\<close>

theorem validateSection_accepts_blank_required_text:
  "inputs (sections unansweredPage ! 0) = [blankAge] \<and> inputRequired blankAge \<and>
   inputType blankAge = TextInput \<and> trim (inputValue blankAge) = [] \<and>
   validateSection unansweredPage 0 = Inr True"
  by (simp add: unansweredPage_def blankAge_def example_defs eval_defs trim_def isWhiteSpace_def)

text \<open>The handlers at the two ends of the node list.\<close>

lemma nextBtnClick_at_last:
  assumes "validateSection s (currentSection s) = Inr True"
    and "currentSection s = totalSections s - 1"
  shows "nextBtnClick s = (None, s\<lparr>currentSection := totalSections s\<rparr>)"
  using assms by (simp add: nextBtnClick_def Let_def totalSections_def)

lemma prevBtnClick_at_first:
  assumes "currentSection s = 0"
  shows "prevBtnClick s = (None, s\<lparr>currentSection := - 1\<rparr>)"
  using assms by (simp add: prevBtnClick_def Let_def)

text \<open>
  C2. The claim reads: the index stays within \<open>[0, N)\<close>; the next handler at the last
  index never takes it past \<open>N - 1\<close>, the previous handler at 0 never below 0. Both
  handlers change the index before they compare it with the bound, and the comparison
  guards the call of \<open>showSection\<close> only: on a page of two steps, the next handler
  run twice after loading leaves the index at 2, and the previous handler run after
  loading leaves it at -1. (The buttons are hidden at these ends; the last section of
  this theory shows that the index stays inside while only buttons on display are
  clicked.)
\<close>

theorem navigation_leaves_bounds:
  "totalSections twoStepPage = 2 \<and>
   currentSection (snd (domContentLoaded twoStepPage)) = 0 \<and>
   currentSection (snd (nextBtnClick (snd (domContentLoaded twoStepPage)))) = 1 \<and>
   currentSection (snd (nextBtnClick (snd (nextBtnClick (snd (domContentLoaded twoStepPage))))))
     = 2 \<and>
   currentSection (snd (prevBtnClick (snd (domContentLoaded twoStepPage)))) = - 1"
  by (simp add: twoStepPage_def example_defs eval_defs domContentLoaded_def nextBtnClick_def
      prevBtnClick_def showSection_def Let_def)

text \<open>
  C9. When \<open>validateSection\<close> of the current section returns false, the next handler
  shows the alert and does nothing else: the page it leaves is the page it found with the
  alert added, so the index is the same and \<open>showSection\<close> has not run.
\<close>

theorem nextBtnClick_blocked_when_invalid:
  assumes "validateSection s (currentSection s) = Inr False"
  shows "nextBtnClick s =
     (None,
      s\<lparr>effects := effects s @
           [Alert ''Please answer all required questions before proceeding.'']\<rparr>)"
  using assms by (simp add: nextBtnClick_def perform_def)

text \<open>C9 on the third step of the example page, whose required box is not checked.\<close>

theorem nextBtnClick_blocked_when_invalid_witness:
  "validateSection (examplePage\<lparr>currentSection := 2\<rparr>) 2 = Inr False \<and>
   currentSection (snd (nextBtnClick (examplePage\<lparr>currentSection := 2\<rparr>))) = 2 \<and>
   effects (snd (nextBtnClick (examplePage\<lparr>currentSection := 2\<rparr>))) =
     [Alert ''Please answer all required questions before proceeding.'']"
proof -
  have h: "validateSection (examplePage\<lparr>currentSection := 2\<rparr>)
             (currentSection (examplePage\<lparr>currentSection := 2\<rparr>)) = Inr False"
    by (simp add: eval_defs example_defs)
  show ?thesis using h nextBtnClick_blocked_when_invalid [OF h]
    by (simp add: examplePage_def)
qed

text \<open>
  C10. A section without required inputs validates, and the next handler moves on from
  it: the index grows by one, and where a section follows it is shown.
\<close>

theorem section_without_required_inputs_validates:
  assumes "0 \<le> currentSection s" and "currentSection s < totalSections s"
    and "filter inputRequired (inputs (sections s ! nat (currentSection s))) = []"
  shows "validateSection s (currentSection s) = Inr True \<and>
         currentSection (snd (nextBtnClick s)) = currentSection s + 1 \<and>
         (currentSection s + 1 < totalSections s \<longrightarrow>
            nextBtnClick s =
              showSection (currentSection s + 1) (s\<lparr>currentSection := currentSection s + 1\<rparr>))"
proof -
  have v: "validateSection s (currentSection s) = Inr True"
    using assms by (simp add: validateSection_def sectionAt_in_range validateElement_no_required)
  then show ?thesis
    by (simp add: nextBtnClick_def Let_def showSection_currentSection totalSections_def)
qed

text \<open>C10 on the second step of the example page, which holds an optional box only.\<close>

theorem section_without_required_inputs_validates_witness:
  "validateSection (examplePage\<lparr>currentSection := 1\<rparr>) 1 = Inr True \<and>
   currentSection (snd (nextBtnClick (examplePage\<lparr>currentSection := 1\<rparr>))) = 2 \<and>
   nextBtnClick (examplePage\<lparr>currentSection := 1\<rparr>) =
     showSection 2 (examplePage\<lparr>currentSection := 2\<rparr>)"
proof -
  let ?s = "examplePage\<lparr>currentSection := 1\<rparr>"
  have h: "0 \<le> currentSection ?s" "currentSection ?s < totalSections ?s"
    "filter inputRequired (inputs (sections ?s ! nat (currentSection ?s))) = []"
    by (simp_all add: totalSections_def example_defs)
  have t: "totalSections ?s = 3" by (simp add: totalSections_def examplePage_def)
  show ?thesis
    using section_without_required_inputs_validates [OF h]
    by (simp add: t showSection_currentSection)
qed

section \<open>Serializing the form\<close>








section \<open>Settling the request\<close>

lemma getMember_rejected:
  "getMember rejectedResponse ''success'' = Inr (Some (JBool False))"
  "getMember rejectedResponse ''error'' = Inr (Some (JStr ''bad input''))"
  by (simp_all add: rejectedResponse_def)


text \<open>
  C3, as claimed: for the response \<open>{"success": false, "error": "bad input"}\<close> the
  message shown is \<open>bad input\<close>. It is not: the one alert of the submission carries the
  fixed text of the \<open>catch\<close> callback, and no alert carries the server's text.
\<close>

theorem rejected_response_alert_counterexample:
  "getMember rejectedResponse ''success'' = Inr (Some (JBool False)) \<and>
   getMember rejectedResponse ''error'' = Inr (Some (JStr ''bad input'')) \<and>
   alertsOf (effects (fetchSettled (Parsed rejectedResponse) (snd (formSubmit examplePage)))) =
     [''An error occurred while processing your assessment. Please try again.''] \<and>
   Alert ''bad input'' \<notin>
     set (effects (fetchSettled (Parsed rejectedResponse) (snd (formSubmit examplePage))))"
  by (simp add: rejectedResponse_def fetchSettled_def onResult_def onError_def formSubmit_def
      example_defs eval_defs Let_def)

text \<open>
  C3, amended. For a response with \<open>success\<close> false and an error string, the handler
  writes the error made from the server's string (from \<open>Prediction failed\<close> when the
  string is empty) to the console, shows the fixed alert of the \<open>catch\<close> callback,
  and leaves the submit button enabled with the label \<open>Submit Assessment\<close>; nothing else
  on the page changes.
\<close>

theorem rejected_response_generic_alert:
  assumes "getMember result ''success'' = Inr (Some (JBool False))"
    and "getMember result ''error'' = Inr (Some (JStr msg))"
  shows "fetchSettled (Parsed result) s =
     s\<lparr>effects := effects s @
          [ConsoleError (ErrorMessage (JStr (if msg = [] then ''Prediction failed'' else msg))),
           Alert ''An error occurred while processing your assessment. Please try again.''],
        submitBtnText := ''Submit Assessment'',
        submitBtnDisabled := False\<rparr>"
  using assms by (simp add: fetchSettled_def onResult_def onError_def perform_def Let_def)

text \<open>C3, amended, on the response \<open>{"success": false, "error": "bad input"}\<close>.\<close>

theorem rejected_response_generic_alert_witness:
  "getMember rejectedResponse ''success'' = Inr (Some (JBool False)) \<and>
   getMember rejectedResponse ''error'' = Inr (Some (JStr ''bad input'')) \<and>
   effects (fetchSettled (Parsed rejectedResponse) examplePage) =
     [ConsoleError (ErrorMessage (JStr ''bad input'')),
      Alert ''An error occurred while processing your assessment. Please try again.''] \<and>
   submitBtnText (fetchSettled (Parsed rejectedResponse) examplePage) = ''Submit Assessment'' \<and>
   \<not> submitBtnDisabled (fetchSettled (Parsed rejectedResponse) examplePage)"
  using rejected_response_generic_alert [OF getMember_rejected, of examplePage]
    getMember_rejected
  by (simp add: examplePage_def)

text \<open>
  C4. For a response whose \<open>success\<close> is true, the handler stores the serialized
  response under \<open>riskResults\<close> and then sets the location to \<open>/results\<close>; nothing
  else on the page changes.
\<close>

theorem success_stores_and_navigates:
  assumes "getMember result ''success'' = Inr (Some (JBool True))"
  shows "fetchSettled (Parsed result) s =
     s\<lparr>effects := effects s @
          [SetItem ''riskResults'' (JSONstringify result), LocationHref ''/results'']\<rparr>"
  using assms by (simp add: fetchSettled_def onResult_def perform_def Let_def)

text \<open>C4 on the response \<open>{"success": true, "result": {"score": 0.8}}\<close>.\<close>

theorem success_stores_and_navigates_witness:
  "getMember acceptedResponse ''success'' = Inr (Some (JBool True)) \<and>
   effects (fetchSettled (Parsed acceptedResponse) examplePage) =
     [SetItem ''riskResults''
        (JSONstringify
           (JObj [(''success'', JBool True), (''result'', JObj [(''score'', JNum (4 / 5))])])),
      LocationHref ''/results'']"
proof -
  have h: "getMember acceptedResponse ''success'' = Inr (Some (JBool True))"
    by (simp add: acceptedResponse_def)
  show ?thesis using h success_stores_and_navigates [OF h, of examplePage]
    by (simp add: examplePage_def acceptedResponse_def)
qed



section \<open>The index on pages reached through the controls on display\<close>

lemma shown_frame:
  assumes "shown s" and "map classList (sections s') = map classList (sections s)"
    and "currentSection s' = currentSection s" and "prevBtnDisplay s' = prevBtnDisplay s"
    and "nextBtnDisplay s' = nextBtnDisplay s"
  shows "shown s'"
proof -
  have len: "length (sections s') = length (sections s)"
    using arg_cong [OF assms(2), of length] by simp
  have "map (\<lambda>sec. ''active'' \<in> set (classList sec)) (sections s') =
        map (\<lambda>cl. ''active'' \<in> set cl) (map classList (sections s'))" by simp
  also have "\<dots> = map (\<lambda>sec. ''active'' \<in> set (classList sec)) (sections s)"
    by (simp add: assms(2))
  finally show ?thesis using assms(1,3,4,5) len by (simp add: shown_def totalSections_def)
qed

lemma onError_frame:
  "sections (onError e s) = sections s"
  "currentSection (onError e s) = currentSection s"
  "prevBtnDisplay (onError e s) = prevBtnDisplay s"
  "nextBtnDisplay (onError e s) = nextBtnDisplay s"
  by (simp_all add: onError_def perform_def Let_def)

lemma onResult_frame:
  "sections (snd (onResult r s)) = sections s"
  "currentSection (snd (onResult r s)) = currentSection s"
  "prevBtnDisplay (snd (onResult r s)) = prevBtnDisplay s"
  "nextBtnDisplay (snd (onResult r s)) = nextBtnDisplay s"
  by (simp_all add: onResult_def perform_def Let_def split: sum.split)

lemma fetchSettled_Parsed:
  "fetchSettled (Parsed r) s =
     (case fst (onResult r s) of
        None \<Rightarrow> snd (onResult r s)
      | Some e \<Rightarrow> onError e (snd (onResult r s)))"
  by (simp add: fetchSettled_def split: prod.split option.split)

lemma fetchSettled_frame:
  "sections (fetchSettled outcome s) = sections s"
  "currentSection (fetchSettled outcome s) = currentSection s"
  "prevBtnDisplay (fetchSettled outcome s) = prevBtnDisplay s"
  "nextBtnDisplay (fetchSettled outcome s) = nextBtnDisplay s"
  by (cases outcome;
      simp add: fetchSettled_Parsed onError_frame onResult_frame split: option.split;
      simp add: fetchSettled_def onError_frame)+

lemma formSubmit_frame:
  "sections (snd (formSubmit s)) = sections s"
  "currentSection (snd (formSubmit s)) = currentSection s"
  "prevBtnDisplay (snd (formSubmit s)) = prevBtnDisplay s"
  "nextBtnDisplay (snd (formSubmit s)) = nextBtnDisplay s"
  by (simp_all add: formSubmit_def perform_def Let_def split: sum.split)

text \<open>Rule induction over the ways a page is reached.\<close>

lemma reachable_shown:
  assumes "reachable p s"
  shows "shown s"
  using assms
proof (induction rule: reachable.induct)
  case (loaded s)
  let ?q = "p\<lparr>currentSection := 0,
               totalStepsText := numberToString (totalSections (p\<lparr>currentSection := 0\<rparr>))\<rparr>"
  from loaded have run: "showSection 0 ?q = (None, s)"
    by (simp add: domContentLoaded_def Let_def)
  have "0 < totalSections ?q"
  proof (rule ccontr)
    assume "\<not> 0 < totalSections ?q"
    then have "fst (showSection 0 ?q) = Some TypeError"
      by (simp add: showSection_def sectionAt_def totalSections_def Let_def)
    with run show False by simp
  qed
  then have "shown (snd (showSection 0 ?q))"
    by (intro showSection_shown) simp_all
  with run show ?case by simp
next
  case (answered s secs cs)
  then show ?case by (auto intro: shown_frame [of s])
next
  case (advanced s)
  then have sh: "shown s" and vis: "nextBtnDisplay s \<noteq> ''none''" by simp_all
  then have rng: "0 \<le> currentSection s" "currentSection s + 1 < totalSections s"
    by (auto simp: shown_def)
  then obtain b where v: "validateSection s (currentSection s) = Inr b"
    using validateSection_in_range [of "currentSection s" s] by auto
  show ?case
  proof (cases b)
    case True
    let ?s1 = "s\<lparr>currentSection := currentSection s + 1\<rparr>"
    have "nextBtnClick s = showSection (currentSection s + 1) ?s1"
      using v True rng by (simp add: nextBtnClick_def Let_def totalSections_def)
    moreover have "shown (snd (showSection (currentSection s + 1) ?s1))"
      using rng by (intro showSection_shown) (simp_all add: totalSections_def)
    ultimately show ?thesis by simp
  next
    case False
    with v have "nextBtnClick s =
        (None, perform (Alert ''Please answer all required questions before proceeding.'') s)"
      by (simp add: nextBtnClick_def)
    then show ?thesis using sh by (auto intro: shown_frame [of s] simp: perform_def)
  qed
next
  case (retreated s)
  then have sh: "shown s" and vis: "prevBtnDisplay s \<noteq> ''none''" by simp_all
  then have rng: "0 \<le> currentSection s - 1" "currentSection s - 1 < totalSections s"
    by (auto simp: shown_def)
  let ?s1 = "s\<lparr>currentSection := currentSection s - 1\<rparr>"
  have "prevBtnClick s = showSection (currentSection s - 1) ?s1"
    using rng by (simp add: prevBtnClick_def Let_def)
  moreover have "shown (snd (showSection (currentSection s - 1) ?s1))"
    using rng by (intro showSection_shown) (simp_all add: totalSections_def)
  ultimately show ?case by simp
next
  case (sent s)
  then show ?case by (auto intro: shown_frame [of s] simp: formSubmit_frame)
next
  case (settled s outcome)
  then show ?case by (auto intro: shown_frame [of s] simp: fetchSettled_frame)
qed

text \<open>
  While the user clicks only buttons that are on display, the index stays inside the
  node list and the current section alone is marked active.
\<close>

lemma reachable_in_bounds:
  assumes "reachable p s"
  shows "0 \<le> currentSection s \<and> currentSection s < totalSections s \<and>
         (\<forall>j < length (sections s).
            (''active'' \<in> set (classList (sections s ! j))) = (j = nat (currentSection s)))"
proof -
  from reachable_shown [OF assms] have sh: "shown s" .
  then have m: "map (\<lambda>sec. ''active'' \<in> set (classList sec)) (sections s) =
                map (\<lambda>j. j = nat (currentSection s)) [0..<length (sections s)]"
    by (simp add: shown_def)
  have "(''active'' \<in> set (classList (sections s ! j))) = (j = nat (currentSection s))"
    if "j < length (sections s)" for j
    using arg_cong [OF m, of "\<lambda>xs. xs ! j"] that by simp
  with sh show ?thesis by (simp add: shown_def)
qed

text \<open>The two-step page, loaded and moved on once, is such a page.\<close>

lemma reachable_twoStepPage:
  "reachable twoStepPage (snd (nextBtnClick (snd (domContentLoaded twoStepPage))))"
proof -
  have l: "fst (domContentLoaded twoStepPage) = None"
    by (simp add: twoStepPage_def example_defs eval_defs domContentLoaded_def showSection_def
        Let_def)
  then have "reachable twoStepPage (snd (domContentLoaded twoStepPage))"
    by (intro reachable.loaded) (simp add: prod_eq_iff)
  moreover have "nextBtnDisplay (snd (domContentLoaded twoStepPage)) \<noteq> ''none''"
    by (simp add: twoStepPage_def example_defs eval_defs domContentLoaded_def showSection_def
        Let_def)
  ultimately show ?thesis by (rule reachable.advanced)
qed

end
